theory Spec2Isabelle
  imports Main
begin

section \<open>JavaScript values used by the two reporter workers\<close>

text \<open>
  A JavaScript string is a sequence of code units and \<open>length\<close> counts them; here a
  string is a \<^typ>\<open>char list\<close>, one \<^typ>\<open>char\<close> per code unit. A \<open>Date\<close> is its time
  value, the milliseconds since the epoch, as an \<^typ>\<open>int\<close>. The \<open>score\<close> of the JSON
  leaderboard is an integer \<open>number\<close>; \<open>!==\<close> on such numbers is plain inequality.
\<close>

definition padEnd :: "string \<Rightarrow> nat \<Rightarrow> string" where
  \<comment> \<open>\<open>s.padEnd(n)\<close>: spaces are appended up to length \<open>n\<close>; a longer \<open>s\<close> is returned as it is.\<close>
  "padEnd s n = s @ replicate (n - length s) (CHR '' '')"

definition repeat :: "string \<Rightarrow> nat \<Rightarrow> string" where
  \<comment> \<open>\<open>s.repeat(n)\<close>\<close>
  "repeat s n = concat (replicate n s)"

fun join :: "string \<Rightarrow> string list \<Rightarrow> string" where
  \<comment> \<open>\<open>xs.join(sep)\<close>\<close>
  "join sep [] = []"
| "join sep [x] = x"
| "join sep (x # y # ys) = x @ sep @ join sep (y # ys)"

fun natToString :: "nat \<Rightarrow> string" where
  \<comment> \<open>\<open>n.toString()\<close> of a non-negative integer: its decimal digits.\<close>
  "natToString n =
     (if n < 10 then [''0123456789'' ! n]
      else natToString (n div 10) @ [''0123456789'' ! (n mod 10)])"

declare natToString.simps [simp del]

definition numberToString :: "int \<Rightarrow> string" where
  \<comment> \<open>\<open>x.toString()\<close> of an integer \<open>number\<close> (below \<open>10^21\<close> in magnitude, where
      JavaScript prints all the digits).\<close>
  "numberToString x =
     (if x < 0 then CHR ''-'' # natToString (nat (- x)) else natToString (nat x))"

datatype js_error = TypeError | SyntaxError

datatype effect =
    ConsoleLog string
  | ConsoleError string
  | FetchGet string
  | FetchPost string "string option"
  \<comment> \<open>\<open>FetchPost url c\<close>: a POST to \<open>url\<close> whose body is \<open>JSON.stringify({content: c})\<close>;
      \<open>None\<close> is \<open>undefined\<close>, which \<open>JSON.stringify\<close> leaves out (the body is \<open>{}\<close>).\<close>

definition CONTEST_START_AT :: int where
  \<comment> \<open>\<open>new Date('2025-09-05T12:00:00Z')\<close>\<close>
  "CONTEST_START_AT = 1757073600000"

definition CONTEST_END_AT :: int where
  \<comment> \<open>\<open>new Date('2025-09-08T12:00:00Z')\<close>\<close>
  "CONTEST_END_AT = 1757332800000"

definition isContestPeriod :: "int \<Rightarrow> bool" where
  "isContestPeriod date \<longleftrightarrow> date \<ge> CONTEST_START_AT \<and> date \<le> CONTEST_END_AT"


section \<open>The API worker (reporter/src/index.ts)\<close>

definition RANKING_API_URL :: string where
  "RANKING_API_URL = ''https://31pwr5t6ij.execute-api.eu-west-2.amazonaws.com/leaderboard/global''"

record ResultItem =
  teamName :: string
  teamPl :: string
  score :: int

definition RANK_MAX_LENGTH :: nat where "RANK_MAX_LENGTH = 5"
definition TEAM_NAME_MAX_LENGTH :: nat where "TEAM_NAME_MAX_LENGTH = 60"
definition SCORE_MAX_LENGTH :: nat where "SCORE_MAX_LENGTH = 5"

definition apiHead :: string where
  \<comment> \<open>the opening fence, the header line and the separator line\<close>
  "apiHead =
     ''```\<newline>''
     @ ''| '' @ padEnd ''Rank'' RANK_MAX_LENGTH @ '' | '' @ padEnd ''Team Name'' TEAM_NAME_MAX_LENGTH
       @ '' | '' @ padEnd ''Score'' SCORE_MAX_LENGTH @ '' |\<newline>''
     @ ''| '' @ repeat ''-'' RANK_MAX_LENGTH @ '' | '' @ repeat ''-'' TEAM_NAME_MAX_LENGTH
       @ '' | '' @ repeat ''-'' SCORE_MAX_LENGTH @ '' |\<newline>''"

definition apiRow :: "nat \<Rightarrow> ResultItem \<Rightarrow> string" where
  \<comment> \<open>the line appended for a shown result\<close>
  "apiRow rank result =
     ''| '' @ padEnd (natToString rank) RANK_MAX_LENGTH
     @ '' | '' @ padEnd (teamName result) TEAM_NAME_MAX_LENGTH
     @ '' | '' @ padEnd (numberToString (score result)) SCORE_MAX_LENGTH @ '' |\<newline>''"

fun resultsLoop :: "nat \<Rightarrow> int \<Rightarrow> nat \<Rightarrow> string \<Rightarrow> ResultItem list \<Rightarrow> string" where
  \<comment> \<open>\<open>for (const result of results)\<close> on the state \<open>rank\<close>, \<open>prevScore\<close>, \<open>idx\<close>, \<open>markdown\<close>\<close>
  "resultsLoop rank prevScore idx markdown [] = markdown"
| "resultsLoop rank prevScore idx markdown (result # rest) =
     (let rank' = (if score result \<noteq> prevScore then rank + 1 else rank);
          prevScore' = (if score result \<noteq> prevScore then score result else prevScore);
          markdown' = (if teamName result = ''Maximum'' \<or> idx < 10
                       then markdown @ apiRow rank' result else markdown)
      in resultsLoop rank' prevScore' (idx + 1) markdown' rest)"

definition responseToMarkdown :: "ResultItem list \<Rightarrow> js_error + string" where
  \<comment> \<open>\<open>results[0].score\<close> on an empty array reads a property of \<open>undefined\<close>: a TypeError.\<close>
  "responseToMarkdown results =
     (case results of
        [] \<Rightarrow> Inl TypeError
      | first # _ \<Rightarrow> Inr (resultsLoop 1 (score first) 0 apiHead results @ ''```\<newline>''))"

record run =
  effects :: "effect list"
  failure :: "js_error option"

definition scheduled_api :: "int \<Rightarrow> string \<Rightarrow> ResultItem list option \<Rightarrow> run" where
  \<comment> \<open>\<open>scheduled\<close> of the API worker: \<open>now\<close> is what \<open>new Date()\<close> returns, \<open>webhook\<close> is
      \<open>env.DISCORD_WEBHOOK_URL\<close>, \<open>payload\<close> is what \<open>resp.json()\<close> gives (\<open>None\<close>: the body
      is not JSON and \<open>resp.json()\<close> rejects). The result lists the effects in order, and
      the exception the handler ends with, if any.\<close>
  "scheduled_api now webhook payload =
     (if \<not> isContestPeriod now
      then \<lparr>effects = [ConsoleLog ''not in contest period''], failure = None\<rparr>
      else (case payload of
              None \<Rightarrow> \<lparr>effects = [FetchGet RANKING_API_URL], failure = Some SyntaxError\<rparr>
            | Some results \<Rightarrow>
                (case responseToMarkdown results of
                   Inl e \<Rightarrow> \<lparr>effects = [FetchGet RANKING_API_URL], failure = Some e\<rparr>
                 | Inr content \<Rightarrow>
                     \<lparr>effects = [FetchGet RANKING_API_URL, FetchPost webhook (Some content)],
                      failure = None\<rparr>)))"

text \<open>The rank engine inside the loop: the index, rank and result of every iteration.\<close>

fun ranked :: "nat \<Rightarrow> int \<Rightarrow> nat \<Rightarrow> ResultItem list \<Rightarrow> (nat \<times> nat \<times> ResultItem) list" where
  "ranked rank prevScore idx [] = []"
| "ranked rank prevScore idx (result # rest) =
     (let rank' = (if score result \<noteq> prevScore then rank + 1 else rank);
          prevScore' = (if score result \<noteq> prevScore then score result else prevScore)
      in (idx, rank', result) # ranked rank' prevScore' (idx + 1) rest)"

definition shownApi :: "nat \<times> nat \<times> ResultItem \<Rightarrow> bool" where
  "shownApi e = (case e of (idx, rank, result) \<Rightarrow> teamName result = ''Maximum'' \<or> idx < 10)"

definition ranks :: "ResultItem list \<Rightarrow> nat list" where
  \<comment> \<open>the rank given to each entry, in order, from the initial state of \<open>responseToMarkdown\<close>\<close>
  "ranks results =
     (case results of
        [] \<Rightarrow> []
      | first # _ \<Rightarrow> map (\<lambda>e. fst (snd e)) (ranked 1 (score first) 0 results))"


section \<open>The HTML worker\<close>

definition RANKING_PAGE_URL :: string where
  "RANKING_PAGE_URL = ''https://icfpcontest2025.github.io/aedificium.html''"

definition is0Minute :: "int \<Rightarrow> bool" where
  \<comment> \<open>\<open>date.getMinutes() === 0\<close>; the worker's local time is UTC.\<close>
  "is0Minute date \<longleftrightarrow> (date div 60000) mod 60 = 0"

definition isMaximum :: "string \<Rightarrow> bool" where
  "isMaximum text \<longleftrightarrow> text = ''Maximum''"

text \<open>
  What the worker reads of the parsed \<open>table\<close> element: the texts of the \<open>th\<close> cells of
  its \<open>thead\<close> (\<open>None\<close> when \<open>querySelector('thead')\<close> finds nothing), and for every
  \<open>tbody tr\<close> the texts of its \<open>td\<close> cells.
\<close>

record HTMLTable =
  thead :: "string list option"
  tbodyRows :: "string list list"

definition isMaximumRow :: "string list \<Rightarrow> bool" where
  "isMaximumRow row \<longleftrightarrow> list_ex isMaximum row"

text \<open>
  An element of \<open>maxLengths\<close>: a length, or \<open>NaN\<close> once \<open>Math.max\<close> has met \<open>undefined\<close>.
\<close>

datatype jsnum = Num nat | NaN

definition at :: "jsnum list \<Rightarrow> nat \<Rightarrow> jsnum option" where
  \<comment> \<open>\<open>maxLengths[index]\<close>; \<open>None\<close> is \<open>undefined\<close>, read beyond the end.\<close>
  "at maxLengths index = (if index < length maxLengths then Some (maxLengths ! index) else None)"

definition setAt :: "jsnum list \<Rightarrow> nat \<Rightarrow> jsnum \<Rightarrow> jsnum list" where
  \<comment> \<open>\<open>maxLengths[index] = v\<close>; a write at the end extends the array (the loop writes
      index by index, so it never writes further out; a hole would read as \<open>undefined\<close>,
      which every use below treats as \<open>NaN\<close>).\<close>
  "setAt maxLengths index v =
     (if index < length maxLengths then maxLengths[index := v]
      else maxLengths @ replicate (index - length maxLengths) NaN @ [v])"

fun mathMax :: "jsnum option \<Rightarrow> nat \<Rightarrow> jsnum" where
  \<comment> \<open>\<open>Math.max(maxLengths[index], n)\<close>\<close>
  "mathMax (Some (Num w)) n = Num (max w n)"
| "mathMax (Some NaN) n = NaN"
| "mathMax None n = NaN"

fun toLength :: "jsnum option \<Rightarrow> nat" where
  \<comment> \<open>the count \<open>padEnd\<close> and \<open>repeat\<close> make of their argument: \<open>NaN\<close> and \<open>undefined\<close> are 0\<close>
  "toLength (Some (Num w)) = w"
| "toLength (Some NaN) = 0"
| "toLength None = 0"

fun cellsLoop :: "jsnum list \<Rightarrow> nat \<Rightarrow> string list \<Rightarrow> jsnum list" where
  \<comment> \<open>\<open>cells.forEach((cell, index) => ...)\<close> of the first pass\<close>
  "cellsLoop maxLengths index [] = maxLengths"
| "cellsLoop maxLengths index (cell # cells) =
     cellsLoop (setAt maxLengths index (mathMax (at maxLengths index) (length cell)))
       (index + 1) cells"

fun scanRows ::
  "string option \<Rightarrow> jsnum list \<Rightarrow> string list list \<Rightarrow> string option \<times> jsnum list" where
  \<comment> \<open>the first \<open>rows.forEach\<close>, on the state \<open>maximumRank\<close>, \<open>maxLengths\<close>; a Maximum row
      has a cell, so \<open>row ! 0\<close> is its first cell\<close>
  "scanRows maximumRank maxLengths [] = (maximumRank, maxLengths)"
| "scanRows maximumRank maxLengths (row # rows) =
     scanRows (if isMaximumRow row then Some (row ! 0) else maximumRank)
       (cellsLoop maxLengths 0 row) rows"

definition cellsLine :: "jsnum list \<Rightarrow> string list \<Rightarrow> string" where
  \<comment> \<open>\<open>`| ${cells.map((cell, index) => cell.text.padEnd(maxLengths[index])).join(' | ')} |`\<close>\<close>
  "cellsLine maxLengths cells =
     ''| '' @ join '' | '' (map (\<lambda>(index, text). padEnd text (toLength (at maxLengths index)))
                             (enumerate 0 cells)) @ '' |''"

definition separatorLine :: "jsnum list \<Rightarrow> string list \<Rightarrow> string" where
  "separatorLine maxLengths headerCells =
     ''| '' @ join '' | '' (map (\<lambda>(index, text). repeat ''-'' (toLength (at maxLengths index)))
                             (enumerate 0 headerCells)) @ '' |''"

fun emitRows :: "jsnum list \<Rightarrow> bool \<Rightarrow> nat \<Rightarrow> string \<Rightarrow> string list list \<Rightarrow> string" where
  \<comment> \<open>the second \<open>rows.forEach\<close>, on the state \<open>isMaximumIncluded\<close>, \<open>index\<close>, \<open>markdown\<close>\<close>
  "emitRows maxLengths isMaximumIncluded index markdown [] = markdown"
| "emitRows maxLengths isMaximumIncluded index markdown (row # rows) =
     (let isMaximumIncluded' = (if isMaximumRow row then True else isMaximumIncluded)
      in if isMaximumIncluded' \<and> index > 10
         then emitRows maxLengths isMaximumIncluded' (index + 1) markdown rows
         else emitRows maxLengths isMaximumIncluded' (index + 1)
                (markdown @ cellsLine maxLengths row @ ''\<newline>'') rows)"

definition highlight :: "string option \<Rightarrow> string" where
  \<comment> \<open>\<open>if (maximumRank) markdown += ...\<close>: \<open>undefined\<close> and the empty string are falsy\<close>
  "highlight maximumRank =
     (case maximumRank of
        None \<Rightarrow> []
      | Some r \<Rightarrow> if r = [] then [] else ''Maximum is **'' @ r @ ''th**\<newline>'')"

definition tableToMarkdown :: "HTMLTable \<Rightarrow> effect list \<times> string option" where
  \<comment> \<open>the console output and the returned value; \<open>None\<close> is \<open>undefined\<close>\<close>
  "tableToMarkdown table =
     (case thead table of
        None \<Rightarrow> ([ConsoleError ''Header not found''], None)
      | Some headerCells \<Rightarrow>
          (case scanRows None (map (\<lambda>cell. Num (length cell)) headerCells) (tbodyRows table) of
             (maximumRank, maxLengths) \<Rightarrow>
               ([], Some (emitRows maxLengths False 0
                            (highlight maximumRank
                             @ RANKING_PAGE_URL @ ''\<newline>''
                             @ ''```markdown\<newline>''
                             @ cellsLine maxLengths headerCells @ ''\<newline>''
                             @ separatorLine maxLengths headerCells @ ''\<newline>'')
                            (tbodyRows table)
                          @ ''```\<newline>''))))"

definition scheduled_html :: "int \<Rightarrow> int \<Rightarrow> string \<Rightarrow> HTMLTable option \<Rightarrow> effect list" where
  \<comment> \<open>\<open>scheduled\<close> of the HTML worker: \<open>now1\<close> and \<open>now2\<close> are what its two \<open>new Date()\<close>
      return, \<open>webhook\<close> is \<open>env.DISCORD_WEBHOOK_URL\<close>, \<open>page\<close> is the first \<open>table\<close> of
      the fetched page (\<open>None\<close>: there is none). The result lists the effects in order.\<close>
  "scheduled_html now1 now2 webhook page =
     (if \<not> isContestPeriod now1 then [ConsoleLog ''not in contest period'']
      else if \<not> is0Minute now2 then [ConsoleLog ''not 0 minute'']
      else (case page of
              None \<Rightarrow> [FetchGet RANKING_PAGE_URL, ConsoleError ''Table not found'']
            | Some table \<Rightarrow>
                (case tableToMarkdown table of
                   (logged, content) \<Rightarrow>
                     [FetchGet RANKING_PAGE_URL] @ logged @ [FetchPost webhook content])))"

text \<open>The rows the second pass prints, with their indices.\<close>

fun printed :: "bool \<Rightarrow> nat \<Rightarrow> string list list \<Rightarrow> (nat \<times> string list) list" where
  "printed isMaximumIncluded index [] = []"
| "printed isMaximumIncluded index (row # rows) =
     (let isMaximumIncluded' = (if isMaximumRow row then True else isMaximumIncluded)
      in if isMaximumIncluded' \<and> index > 10
         then printed isMaximumIncluded' (index + 1) rows
         else (index, row) # printed isMaximumIncluded' (index + 1) rows)"


section \<open>Notions of the specification\<close>

definition cutoffIndex :: "('a \<Rightarrow> bool) \<Rightarrow> 'a list \<Rightarrow> nat" where
  \<comment> \<open>the index of the first tracked entry; the length of the sequence, which is beyond
      every row, when there is none\<close>
  "cutoffIndex tracked xs = length (takeWhile (\<lambda>x. \<not> tracked x) xs)"

fun splitLines :: "string \<Rightarrow> string list" where
  \<comment> \<open>\<open>s.split('\n')\<close>\<close>
  "splitLines [] = [[]]"
| "splitLines (c # cs) =
     (if c = CHR ''\<newline>'' then [] # splitLines cs
      else (case splitLines cs of l # ls \<Rightarrow> (c # l) # ls | [] \<Rightarrow> [[c]]))"

definition isFetch :: "effect \<Rightarrow> bool" where
  "isFetch e = (case e of FetchGet u \<Rightarrow> True | FetchPost u c \<Rightarrow> True | _ \<Rightarrow> False)"

definition isPost :: "effect \<Rightarrow> bool" where
  "isPost e = (case e of FetchPost u c \<Rightarrow> True | _ \<Rightarrow> False)"


definition maximumRankOf :: "string list list \<Rightarrow> string option" where
  \<comment> \<open>\<open>maximumRank\<close> after the first pass over the rows\<close>
  "maximumRankOf rows = fst (scanRows None [] rows)"

definition widths :: "string list \<Rightarrow> string list list \<Rightarrow> jsnum list" where
  \<comment> \<open>\<open>maxLengths\<close> after the first pass over the rows\<close>
  "widths headerCells rows =
     snd (scanRows None (map (\<lambda>cell. Num (length cell)) headerCells) rows)"

definition tableLines :: "string list \<Rightarrow> string list list \<Rightarrow> string list" where
  \<comment> \<open>the lines written after the opening fence: header, separator, printed rows\<close>
  "tableLines headerCells rows =
     cellsLine (widths headerCells rows) headerCells
     # separatorLine (widths headerCells rows) headerCells
     # map (\<lambda>e. cellsLine (widths headerCells rows) (snd e)) (printed False 0 rows)"

definition fenced :: "string list \<Rightarrow> string" where
  \<comment> \<open>the text between the fence markers: every line followed by a line break\<close>
  "fenced ls = concat (map (\<lambda>l. l @ ''\<newline>'') ls)"

definition columnMax :: "string list \<Rightarrow> string list list \<Rightarrow> nat \<Rightarrow> nat" where
  \<comment> \<open>the longest text of column \<open>k\<close>, over the header label and every body cell\<close>
  "columnMax headerCells rows k =
     Max (set (map length (headerCells ! k # map (\<lambda>row. row ! k) rows)))"

definition rowPolicy :: "nat \<Rightarrow> nat \<Rightarrow> bool" where
  \<comment> \<open>the truncation policy as the specification words it\<close>
  "rowPolicy cutoff i \<longleftrightarrow> i \<le> 10 \<or> i \<le> cutoff"

definition scenarioATable :: HTMLTable where
  \<comment> \<open>Scenario A of the specification, as a ranking page shows it\<close>
  "scenarioATable =
     \<lparr>thead = Some [''Rank'', ''Team'', ''Score''],
      tbodyRows = [[''1'', ''Alpha'', ''100''], [''2'', ''Maximum'', ''90''],
                   [''2'', ''Beta'', ''90''], [''3'', ''Gamma'', ''80'']]\<rparr>"

definition isMaximumResult :: "ResultItem \<Rightarrow> bool" where
  \<comment> \<open>the test \<open>result.teamName === 'Maximum'\<close> of the API worker\<close>
  "isMaximumResult result \<longleftrightarrow> teamName result = ''Maximum''"

definition otherTeam :: ResultItem where
  "otherTeam = \<lparr>teamName = ''Alpha'', teamPl = [], score = 100\<rparr>"

definition scenarioA :: "ResultItem list" where
  \<comment> \<open>Scenario A of the specification, as the API delivers it\<close>
  "scenarioA =
     [\<lparr>teamName = ''Alpha'', teamPl = [], score = 100\<rparr>,
      \<lparr>teamName = ''Maximum'', teamPl = [], score = 90\<rparr>,
      \<lparr>teamName = ''Beta'', teamPl = [], score = 90\<rparr>,
      \<lparr>teamName = ''Gamma'', teamPl = [], score = 80\<rparr>]"


section \<open>The loops and what they print\<close>

lemma resultsLoop_ranked:
  "resultsLoop rank prevScore idx markdown results =
     markdown @ concat (map (\<lambda>e. apiRow (fst (snd e)) (snd (snd e)))
                          (filter shownApi (ranked rank prevScore idx results)))"
  by (induction results arbitrary: rank prevScore idx markdown)
     (simp_all add: Let_def shownApi_def)

lemma emitRows_printed:
  "emitRows maxLengths inc index markdown rows =
     markdown @ concat (map (\<lambda>e. cellsLine maxLengths (snd e) @ ''\<newline>'')
                          (printed inc index rows))"
  by (induction rows arbitrary: inc index markdown) (simp_all add: Let_def)


section \<open>The rank engine\<close>

lemma ranked_Cons:
  "ranked rank prevScore idx (x # rest) =
     (idx, (if score x \<noteq> prevScore then rank + 1 else rank), x)
       # ranked (if score x \<noteq> prevScore then rank + 1 else rank) (score x) (idx + 1) rest"
  by (simp add: Let_def)

lemma length_ranked: "length (ranked rank prevScore idx results) = length results"
  by (induction results arbitrary: rank prevScore idx) (simp_all add: Let_def)

lemma ranked_nth_idx:
  "k < length results \<Longrightarrow> fst (ranked rank prevScore idx results ! k) = idx + k"
  by (induction results arbitrary: rank prevScore idx k)
     (auto simp: Let_def nth_Cons split: nat.splits)

lemma ranked_nth_result:
  "k < length results \<Longrightarrow> snd (snd (ranked rank prevScore idx results ! k)) = results ! k"
  by (induction results arbitrary: rank prevScore idx k)
     (auto simp: Let_def nth_Cons split: nat.splits)

lemma ranked_nth_rank_Suc:
  "Suc k < length results \<Longrightarrow>
   fst (snd (ranked rank prevScore idx results ! Suc k)) =
     (if score (results ! Suc k) \<noteq> score (results ! k)
      then fst (snd (ranked rank prevScore idx results ! k)) + 1
      else fst (snd (ranked rank prevScore idx results ! k)))"
proof (induction results arbitrary: rank prevScore idx k)
  case Nil
  then show ?case by simp
next
  case (Cons x rest)
  show ?case
  proof (cases k)
    case 0
    with Cons.prems obtain y rest' where "rest = y # rest'" by (cases rest) auto
    with 0 show ?thesis by (simp add: Let_def)
  next
    case (Suc j)
    with Cons.prems have "Suc j < length rest" by simp
    from Cons.IH [OF this] Suc show ?thesis by (simp only: ranked_Cons nth_Cons_Suc)
  qed
qed


lemma ranked_as_map:
  "ranked rank prevScore 0 results =
     map (\<lambda>i. (i, fst (snd (ranked rank prevScore 0 results ! i)), results ! i))
       [0..<length results]"
proof (rule nth_equalityI)
  show "length (ranked rank prevScore 0 results) =
        length (map (\<lambda>i. (i, fst (snd (ranked rank prevScore 0 results ! i)), results ! i))
                  [0..<length results])"
    by (simp add: length_ranked)
next
  fix i assume "i < length (ranked rank prevScore 0 results)"
  then have i: "i < length results" by (simp add: length_ranked)
  have "ranked rank prevScore 0 results ! i =
          (fst (ranked rank prevScore 0 results ! i),
           fst (snd (ranked rank prevScore 0 results ! i)),
           snd (snd (ranked rank prevScore 0 results ! i)))"
    by simp
  also have "\<dots> = (i, fst (snd (ranked rank prevScore 0 results ! i)), results ! i)"
    using ranked_nth_idx [OF i, of rank prevScore 0] ranked_nth_result [OF i, of rank prevScore 0]
    by simp
  finally show "ranked rank prevScore 0 results ! i =
      map (\<lambda>i. (i, fst (snd (ranked rank prevScore 0 results ! i)), results ! i))
        [0..<length results] ! i"
    using i by simp
qed

lemma ranks_nth:
  "i < length results \<Longrightarrow>
   ranks results ! i = fst (snd (ranked 1 (score (results ! 0)) 0 results ! i))"
  by (cases results) (simp_all add: ranks_def length_ranked del: ranked.simps)

lemma length_ranks: "length (ranks results) = length results"
  by (cases results) (simp_all add: ranks_def length_ranked del: ranked.simps)

lemma responseToMarkdown_rows:
  assumes "results \<noteq> []"
  shows "responseToMarkdown results =
     Inr (apiHead
          @ concat (map (\<lambda>i. apiRow (ranks results ! i) (results ! i))
                      (filter (\<lambda>i. teamName (results ! i) = ''Maximum'' \<or> i < 10)
                         [0..<length results]))
          @ ''```\<newline>'')"
proof -
  from assms obtain x rest where r: "results = x # rest" by (cases results) auto
  let ?rk = "ranked 1 (score x) 0 results"
  have "filter shownApi ?rk =
        map (\<lambda>i. (i, fst (snd (?rk ! i)), results ! i))
          (filter (\<lambda>i. teamName (results ! i) = ''Maximum'' \<or> i < 10) [0..<length results])"
    by (subst ranked_as_map) (simp add: filter_map o_def shownApi_def)
  then have "concat (map (\<lambda>e. apiRow (fst (snd e)) (snd (snd e))) (filter shownApi ?rk)) =
        concat (map (\<lambda>i. apiRow (fst (snd (?rk ! i))) (results ! i))
          (filter (\<lambda>i. teamName (results ! i) = ''Maximum'' \<or> i < 10) [0..<length results]))"
    by (simp add: o_def)
  also have "\<dots> = concat (map (\<lambda>i. apiRow (ranks results ! i) (results ! i))
          (filter (\<lambda>i. teamName (results ! i) = ''Maximum'' \<or> i < 10) [0..<length results]))"
  proof -
    have eq: "fst (snd (?rk ! i)) = ranks results ! i" if "i < length results" for i
      using ranks_nth [OF that] by (simp add: r del: ranked.simps)
    show ?thesis
      by (rule arg_cong [where f = concat], rule map_cong [OF refl]) (use eq in simp)
  qed
  finally have "resultsLoop 1 (score x) 0 apiHead results =
      apiHead @ concat (map (\<lambda>i. apiRow (ranks results ! i) (results ! i))
          (filter (\<lambda>i. teamName (results ! i) = ''Maximum'' \<or> i < 10) [0..<length results]))"
    by (simp only: resultsLoop_ranked)
  then show ?thesis
    unfolding responseToMarkdown_def r [symmetric]
    by (simp add: r del: resultsLoop.simps)
qed


lemma ranks_0: "results \<noteq> [] \<Longrightarrow> ranks results ! 0 = 1"
  by (cases results) (simp_all add: ranks_def Let_def)

lemma ranks_Suc:
  assumes "Suc i < length results"
  shows "ranks results ! Suc i =
           (if score (results ! Suc i) \<noteq> score (results ! i)
            then ranks results ! i + 1 else ranks results ! i)"
proof -
  from assms have i: "i < length results" by simp
  show ?thesis
    unfolding ranks_nth [OF assms] ranks_nth [OF i]
    by (rule ranked_nth_rank_Suc [OF assms])
qed

lemma sorted_ranks: "sorted (ranks results)"
  unfolding sorted_iff_nth_Suc
proof (intro allI impI)
  fix i assume "Suc i < length (ranks results)"
  then have "Suc i < length results" by (simp add: length_ranks)
  from ranks_Suc [OF this] show "ranks results ! i \<le> ranks results ! Suc i" by simp
qed

lemma ranks_eq_iff_le:
  assumes desc: "sorted_wrt (\<ge>) (map score results)"
    and "i \<le> j" and "j < length results"
  shows "ranks results ! i = ranks results ! j \<longleftrightarrow> score (results ! i) = score (results ! j)"
  using \<open>i \<le> j\<close> \<open>j < length results\<close>
proof (induction j)
  case 0
  then show ?case by simp
next
  case (Suc j)
  show ?case
  proof (cases "i = Suc j")
    case True
    then show ?thesis by simp
  next
    case False
    with Suc.prems have ij: "i \<le> j" and j: "j < length results" and sj: "Suc j < length results"
      by simp_all
    note IH = Suc.IH [OF ij j]
    note step = ranks_Suc [OF sj]
    have mono: "ranks results ! i \<le> ranks results ! j"
      using sorted_ranks [of results] ij j
      by (simp add: sorted_iff_nth_mono length_ranks)
    have d1: "score (results ! i) \<ge> score (results ! j)"
    proof (cases "i = j")
      case True then show ?thesis by simp
    next
      case False
      with ij have "i < j" by simp
      with desc j show ?thesis by (simp add: sorted_wrt_iff_nth_less)
    qed
    have d2: "score (results ! j) \<ge> score (results ! Suc j)"
      using desc sj by (simp add: sorted_wrt_iff_nth_less)
    show ?thesis
    proof
      assume "ranks results ! i = ranks results ! Suc j"
      with step mono have "ranks results ! i = ranks results ! j"
        and "score (results ! Suc j) = score (results ! j)"
        by (auto split: if_splits)
      with IH show "score (results ! i) = score (results ! Suc j)" by simp
    next
      assume e: "score (results ! i) = score (results ! Suc j)"
      with d1 d2 have "score (results ! i) = score (results ! j)"
        and "score (results ! Suc j) = score (results ! j)" by simp_all
      with IH step show "ranks results ! i = ranks results ! Suc j" by simp
    qed
  qed
qed

text \<open>
  C2. For a non-empty sequence of entries the first entry gets rank 1, and every later
  entry gets the rank of its predecessor, plus one exactly when its score differs from
  the predecessor's (\<open>prevScore\<close> is then the predecessor's score); so the ranks are
  non-decreasing along the sequence. These are the ranks the rendered rows carry.
\<close>

theorem rank_engine_steps:
  assumes "results \<noteq> []"
  shows "length (ranks results) = length results
       \<and> ranks results ! 0 = 1
       \<and> (\<forall>i. i + 1 < length results \<longrightarrow>
              ranks results ! (i + 1) =
                (if score (results ! (i + 1)) \<noteq> score (results ! i)
                 then ranks results ! i + 1 else ranks results ! i))
       \<and> sorted (ranks results)
       \<and> responseToMarkdown results =
           Inr (apiHead
                @ concat (map (\<lambda>i. apiRow (ranks results ! i) (results ! i))
                            (filter (\<lambda>i. teamName (results ! i) = ''Maximum'' \<or> i < 10)
                               [0..<length results]))
                @ ''```\<newline>'')"
  using assms ranks_Suc [of _ results]
  by (simp add: length_ranks ranks_0 sorted_ranks responseToMarkdown_rows)

theorem rank_engine_steps_witness:
  "scenarioA \<noteq> [] \<and> ranks scenarioA = [1, 2, 2, 3]
   \<and> ranks scenarioA ! 0 = 1 \<and> sorted (ranks scenarioA)"
proof -
  have ne: "scenarioA \<noteq> []" by (simp add: scenarioA_def)
  have "ranks scenarioA = [1, 2, 2, 3]" by (simp add: ranks_def scenarioA_def)
  with ne rank_engine_steps [OF ne] show ?thesis by simp
qed

text \<open>
  C5. When the entries come sorted by descending score, the ranks the loop of
  \<open>responseToMarkdown\<close> assigns are non-decreasing along the sequence, and two entries
  have the same rank if and only if they have the same score. These are the ranks of the
  rendered rows: for a non-empty sequence the output is the head, the row of every shown
  entry with its rank, and the closing fence.
\<close>

theorem ranks_equal_iff_scores_equal:
  assumes "sorted_wrt (\<ge>) (map score results)"
  shows "sorted (ranks results)
       \<and> (\<forall>i j. i < length results \<and> j < length results \<longrightarrow>
              (ranks results ! i = ranks results ! j
                 \<longleftrightarrow> score (results ! i) = score (results ! j)))
       \<and> (results \<noteq> [] \<longrightarrow>
            responseToMarkdown results =
              Inr (apiHead
                   @ concat (map (\<lambda>i. apiRow (ranks results ! i) (results ! i))
                               (filter (\<lambda>i. teamName (results ! i) = ''Maximum'' \<or> i < 10)
                                  [0..<length results]))
                   @ ''```\<newline>''))"
proof -
  have a: "sorted (ranks results)" by (rule sorted_ranks)
  have b: "\<forall>i j. i < length results \<and> j < length results \<longrightarrow>
              (ranks results ! i = ranks results ! j
                 \<longleftrightarrow> score (results ! i) = score (results ! j))"
  proof (intro allI impI)
    fix i j assume b: "i < length results \<and> j < length results"
    show "ranks results ! i = ranks results ! j
            \<longleftrightarrow> score (results ! i) = score (results ! j)"
    proof (cases "i \<le> j")
      case True
      with b show ?thesis using ranks_eq_iff_le [OF assms, of i j] by simp
    next
      case False
      then have "j \<le> i" by simp
      with b show ?thesis using ranks_eq_iff_le [OF assms, of j i] by auto
    qed
  qed
  have c: "results \<noteq> [] \<longrightarrow>
            responseToMarkdown results =
              Inr (apiHead
                   @ concat (map (\<lambda>i. apiRow (ranks results ! i) (results ! i))
                               (filter (\<lambda>i. teamName (results ! i) = ''Maximum'' \<or> i < 10)
                                  [0..<length results]))
                   @ ''```\<newline>'')"
    using responseToMarkdown_rows [of results] by blast
  show ?thesis by (rule conjI [OF a conjI [OF b c]])
qed

theorem ranks_equal_iff_scores_equal_witness:
  "sorted_wrt (\<ge>) (map score scenarioA)
   \<and> scenarioA \<noteq> []
   \<and> sorted (ranks scenarioA)
   \<and> (ranks scenarioA ! 1 = ranks scenarioA ! 2 \<longleftrightarrow> score (scenarioA ! 1) = score (scenarioA ! 2))
   \<and> (ranks scenarioA ! 0 = ranks scenarioA ! 3 \<longleftrightarrow> score (scenarioA ! 0) = score (scenarioA ! 3))
   \<and> responseToMarkdown scenarioA =
        Inr (apiHead @ apiRow 1 (scenarioA ! 0) @ apiRow 2 (scenarioA ! 1)
             @ apiRow 2 (scenarioA ! 2) @ apiRow 3 (scenarioA ! 3) @ ''```\<newline>'')"
proof -
  have desc: "sorted_wrt (\<ge>) (map score scenarioA)" by (simp add: scenarioA_def)
  have ne: "scenarioA \<noteq> []" by (simp add: scenarioA_def)
  have len: "length scenarioA = 4" by (simp add: scenarioA_def)
  have rk: "ranks scenarioA = [1, 2, 2, 3]" by (simp add: ranks_def scenarioA_def)
  have up: "[0..<4] = [0, 1, 2, 3]" by (simp add: upt_rec)
  note inv = ranks_equal_iff_scores_equal [OF desc]
  from inv ne have "responseToMarkdown scenarioA =
        Inr (apiHead
             @ concat (map (\<lambda>i. apiRow (ranks scenarioA ! i) (scenarioA ! i))
                         (filter (\<lambda>i. teamName (scenarioA ! i) = ''Maximum'' \<or> i < 10)
                            [0..<length scenarioA]))
             @ ''```\<newline>'')"
    by blast
  then have out: "responseToMarkdown scenarioA =
        Inr (apiHead @ apiRow 1 (scenarioA ! 0) @ apiRow 2 (scenarioA ! 1)
             @ apiRow 2 (scenarioA ! 2) @ apiRow 3 (scenarioA ! 3) @ ''```\<newline>'')"
    by (simp add: rk len up)
  from inv have s: "sorted (ranks scenarioA)" by blast
  from inv have "\<forall>i j. i < length scenarioA \<and> j < length scenarioA \<longrightarrow>
              (ranks scenarioA ! i = ranks scenarioA ! j
                 \<longleftrightarrow> score (scenarioA ! i) = score (scenarioA ! j))"
    by blast
  from this [rule_format, of 1 2] this [rule_format, of 0 3] len
  have e: "ranks scenarioA ! 1 = ranks scenarioA ! 2 \<longleftrightarrow> score (scenarioA ! 1) = score (scenarioA ! 2)"
    and f: "ranks scenarioA ! 0 = ranks scenarioA ! 3 \<longleftrightarrow> score (scenarioA ! 0) = score (scenarioA ! 3)"
    by simp_all
  show ?thesis
    by (rule conjI [OF desc conjI [OF ne conjI [OF s conjI [OF e conjI [OF f out]]]]])
qed


section \<open>The HTML renderer\<close>

lemma scanRows_fst:
  "fst (scanRows maximumRank ws rows) = fst (scanRows maximumRank ws' rows)"
  by (induction rows arbitrary: maximumRank ws ws') simp_all

lemma tableToMarkdown_shape:
  assumes "thead table = Some headerCells"
  shows "tableToMarkdown table =
     ([], Some (highlight (maximumRankOf (tbodyRows table))
                @ RANKING_PAGE_URL @ ''\<newline>''
                @ ''```markdown\<newline>''
                @ fenced (tableLines headerCells (tbodyRows table))
                @ ''```\<newline>''))"
proof -
  obtain mr ws where sc:
    "scanRows None (map (\<lambda>cell. Num (length cell)) headerCells) (tbodyRows table) = (mr, ws)"
    by (cases "scanRows None (map (\<lambda>cell. Num (length cell)) headerCells) (tbodyRows table)")
  have mr: "maximumRankOf (tbodyRows table) = mr"
    unfolding maximumRankOf_def
    using scanRows_fst [of None "[]" "tbodyRows table" "map (\<lambda>cell. Num (length cell)) headerCells"]
    by (simp add: sc)
  have ws: "widths headerCells (tbodyRows table) = ws"
    by (simp add: widths_def sc)
  show ?thesis
    by (simp add: tableToMarkdown_def assms sc emitRows_printed mr ws fenced_def
          tableLines_def o_def del: emitRows.simps printed.simps)
qed

lemma tableToMarkdown_None:
  "thead table = None \<Longrightarrow> tableToMarkdown table = ([ConsoleError ''Header not found''], None)"
  by (simp add: tableToMarkdown_def)



lemma isContestPeriod_start: "isContestPeriod CONTEST_START_AT"
  by (simp add: isContestPeriod_def CONTEST_START_AT_def CONTEST_END_AT_def)

lemma is0Minute_start: "is0Minute CONTEST_START_AT"
  by (simp add: is0Minute_def CONTEST_START_AT_def)

lemma scanRows_maximumRank:
  "fst (scanRows maximumRank ws rows) =
     (if list_ex isMaximumRow rows then Some (last (filter isMaximumRow rows) ! 0)
      else maximumRank)"
  by (induction rows arbitrary: maximumRank ws) (auto simp: list_ex_iff filter_empty_conv)

lemma maximumRankOf_tracked:
  "list_ex isMaximumRow rows \<Longrightarrow>
   maximumRankOf rows = Some (last (filter isMaximumRow rows) ! 0)"
  by (simp add: maximumRankOf_def scanRows_maximumRank)

lemma isMaximumRow_iff: "isMaximumRow row \<longleftrightarrow> (\<exists>k<length row. row ! k = ''Maximum'')"
  by (auto simp: isMaximumRow_def list_ex_iff isMaximum_def in_set_conv_nth)

lemma apiRow_not_Nil: "apiRow rank result \<noteq> []"
  by (simp add: apiRow_def)

lemma scenarioATable_output:
  "tableToMarkdown scenarioATable =
     ([], Some (''Maximum is **2th**\<newline>''
          @ ''https://icfpcontest2025.github.io/aedificium.html\<newline>''
          @ ''```markdown\<newline>''
          @ ''| Rank | Team    | Score |\<newline>''
          @ ''| ---- | ------- | ----- |\<newline>''
          @ ''| 1    | Alpha   | 100   |\<newline>''
          @ ''| 2    | Maximum | 90    |\<newline>''
          @ ''| 2    | Beta    | 90    |\<newline>''
          @ ''| 3    | Gamma   | 80    |\<newline>''
          @ ''```\<newline>''))"
  by code_simp


lemma highlight_cases:
  "highlight maximumRank = []
   \<or> (\<exists>r. maximumRank = Some r \<and> r \<noteq> []
          \<and> highlight maximumRank = ''Maximum is **'' @ r @ ''th**\<newline>'')"
  by (cases maximumRank) (simp_all add: highlight_def)

text \<open>
  C10. Every output \<open>tableToMarkdown\<close> returns consists of the optional highlight line,
  then the line with the ranking-page URL, then the opening code fence, the table and the
  closing fence.
\<close>

theorem url_line_before_fence:
  assumes "snd (tableToMarkdown table) = Some markdown"
  shows "(\<exists>headerCells. thead table = Some headerCells
           \<and> markdown = highlight (maximumRankOf (tbodyRows table))
                        @ RANKING_PAGE_URL @ ''\<newline>''
                        @ ''```markdown\<newline>''
                        @ fenced (tableLines headerCells (tbodyRows table))
                        @ ''```\<newline>'')
       \<and> (highlight (maximumRankOf (tbodyRows table)) = []
            \<or> (\<exists>r. r \<noteq> [] \<and> highlight (maximumRankOf (tbodyRows table))
                                 = ''Maximum is **'' @ r @ ''th**\<newline>''))
       \<and> RANKING_PAGE_URL = ''https://icfpcontest2025.github.io/aedificium.html''"
proof -
  from assms obtain headerCells where h: "thead table = Some headerCells"
    by (cases "thead table") (simp_all add: tableToMarkdown_None)
  from assms tableToMarkdown_shape [OF h] have
    "markdown = highlight (maximumRankOf (tbodyRows table))
                 @ RANKING_PAGE_URL @ ''\<newline>''
                 @ ''```markdown\<newline>''
                 @ fenced (tableLines headerCells (tbodyRows table))
                 @ ''```\<newline>''"
    by simp
  with h highlight_cases [of "maximumRankOf (tbodyRows table)"] show ?thesis
    by (auto simp: RANKING_PAGE_URL_def)
qed

theorem url_line_before_fence_witness:
  "snd (tableToMarkdown scenarioATable) =
     Some (''Maximum is **2th**\<newline>''
          @ ''https://icfpcontest2025.github.io/aedificium.html\<newline>''
          @ ''```markdown\<newline>''
          @ ''| Rank | Team    | Score |\<newline>''
          @ ''| ---- | ------- | ----- |\<newline>''
          @ ''| 1    | Alpha   | 100   |\<newline>''
          @ ''| 2    | Maximum | 90    |\<newline>''
          @ ''| 2    | Beta    | 90    |\<newline>''
          @ ''| 3    | Gamma   | 80    |\<newline>''
          @ ''```\<newline>'')
   \<and> highlight (maximumRankOf (tbodyRows scenarioATable)) = ''Maximum is **2th**\<newline>''
   \<and> thead scenarioATable = Some [''Rank'', ''Team'', ''Score'']"
proof -
  have out: "snd (tableToMarkdown scenarioATable) =
     Some (''Maximum is **2th**\<newline>''
          @ ''https://icfpcontest2025.github.io/aedificium.html\<newline>''
          @ ''```markdown\<newline>''
          @ ''| Rank | Team    | Score |\<newline>''
          @ ''| ---- | ------- | ----- |\<newline>''
          @ ''| 1    | Alpha   | 100   |\<newline>''
          @ ''| 2    | Maximum | 90    |\<newline>''
          @ ''| 2    | Beta    | 90    |\<newline>''
          @ ''| 3    | Gamma   | 80    |\<newline>''
          @ ''```\<newline>'')"
    by (simp only: scenarioATable_output snd_conv)
  have hl: "highlight (maximumRankOf (tbodyRows scenarioATable)) = ''Maximum is **2th**\<newline>''"
    by (simp add: scenarioATable_def maximumRankOf_def highlight_def isMaximumRow_def isMaximum_def)
  have th: "thead scenarioATable = Some [''Rank'', ''Team'', ''Score'']"
    by (simp add: scenarioATable_def)
  from url_line_before_fence [OF out] out hl th show ?thesis by blast
qed

text \<open>
  C7. When the table has a header and some row is a Maximum row: if the first cell of the
  last Maximum row is not empty, the output starts with the line
  \<open>Maximum is **<rank>th**\<close>, where \<open><rank>\<close> is the text of that first cell; if that
  first cell is empty, no highlight line is written and the output starts with the URL
  line. On Scenario A the output has the line \<open>Maximum is **2th**\<close> and all four rows.
\<close>

theorem highlight_line:
  "(thead table = Some headerCells \<and> list_ex isMaximumRow (tbodyRows table)
      \<and> last (filter isMaximumRow (tbodyRows table)) ! 0 \<noteq> [] \<longrightarrow>
    snd (tableToMarkdown table) =
      Some (''Maximum is **'' @ last (filter isMaximumRow (tbodyRows table)) ! 0 @ ''th**\<newline>''
            @ RANKING_PAGE_URL @ ''\<newline>''
            @ ''```markdown\<newline>''
            @ fenced (tableLines headerCells (tbodyRows table))
            @ ''```\<newline>''))
   \<and> (thead table = Some headerCells \<and> list_ex isMaximumRow (tbodyRows table)
      \<and> last (filter isMaximumRow (tbodyRows table)) ! 0 = [] \<longrightarrow>
    snd (tableToMarkdown table) =
      Some (RANKING_PAGE_URL @ ''\<newline>''
            @ ''```markdown\<newline>''
            @ fenced (tableLines headerCells (tbodyRows table))
            @ ''```\<newline>''))
   \<and> snd (tableToMarkdown scenarioATable) =
     Some (''Maximum is **2th**\<newline>''
          @ ''https://icfpcontest2025.github.io/aedificium.html\<newline>''
          @ ''```markdown\<newline>''
          @ ''| Rank | Team    | Score |\<newline>''
          @ ''| ---- | ------- | ----- |\<newline>''
          @ ''| 1    | Alpha   | 100   |\<newline>''
          @ ''| 2    | Maximum | 90    |\<newline>''
          @ ''| 2    | Beta    | 90    |\<newline>''
          @ ''| 3    | Gamma   | 80    |\<newline>''
          @ ''```\<newline>'')"
proof (intro conjI impI)
  assume a: "thead table = Some headerCells \<and> list_ex isMaximumRow (tbodyRows table)
      \<and> last (filter isMaximumRow (tbodyRows table)) ! 0 \<noteq> []"
  then have "highlight (maximumRankOf (tbodyRows table)) =
      ''Maximum is **'' @ last (filter isMaximumRow (tbodyRows table)) ! 0 @ ''th**\<newline>''"
    by (simp add: maximumRankOf_tracked highlight_def)
  with a tableToMarkdown_shape [of table headerCells]
  show "snd (tableToMarkdown table) =
      Some (''Maximum is **'' @ last (filter isMaximumRow (tbodyRows table)) ! 0 @ ''th**\<newline>''
            @ RANKING_PAGE_URL @ ''\<newline>''
            @ ''```markdown\<newline>''
            @ fenced (tableLines headerCells (tbodyRows table))
            @ ''```\<newline>'')"
    by simp
next
  assume a: "thead table = Some headerCells \<and> list_ex isMaximumRow (tbodyRows table)
      \<and> last (filter isMaximumRow (tbodyRows table)) ! 0 = []"
  then have "highlight (maximumRankOf (tbodyRows table)) = []"
    by (simp add: maximumRankOf_tracked highlight_def)
  with a tableToMarkdown_shape [of table headerCells]
  show "snd (tableToMarkdown table) =
      Some (RANKING_PAGE_URL @ ''\<newline>''
            @ ''```markdown\<newline>''
            @ fenced (tableLines headerCells (tbodyRows table))
            @ ''```\<newline>'')"
    by simp
next
  show "snd (tableToMarkdown scenarioATable) =
     Some (''Maximum is **2th**\<newline>''
          @ ''https://icfpcontest2025.github.io/aedificium.html\<newline>''
          @ ''```markdown\<newline>''
          @ ''| Rank | Team    | Score |\<newline>''
          @ ''| ---- | ------- | ----- |\<newline>''
          @ ''| 1    | Alpha   | 100   |\<newline>''
          @ ''| 2    | Maximum | 90    |\<newline>''
          @ ''| 2    | Beta    | 90    |\<newline>''
          @ ''| 3    | Gamma   | 80    |\<newline>''
          @ ''```\<newline>'')"
    by (simp only: scenarioATable_output snd_conv)
qed

theorem highlight_line_witness:
  "thead \<lparr>thead = Some [''R'', ''Team''], tbodyRows = [[''4'', ''Maximum''], [''7'', ''Maximum'']]\<rparr>
     = Some [''R'', ''Team'']
   \<and> list_ex isMaximumRow [[''4'', ''Maximum''], [''7'', ''Maximum'']]
   \<and> last (filter isMaximumRow [[''4'', ''Maximum''], [''7'', ''Maximum'']]) ! 0 = ''7''
   \<and> snd (tableToMarkdown
        \<lparr>thead = Some [''R'', ''Team''], tbodyRows = [[''4'', ''Maximum''], [''7'', ''Maximum'']]\<rparr>) =
      Some (''Maximum is **7th**\<newline>''
            @ RANKING_PAGE_URL @ ''\<newline>''
            @ ''```markdown\<newline>''
            @ fenced (tableLines [''R'', ''Team''] [[''4'', ''Maximum''], [''7'', ''Maximum'']])
            @ ''```\<newline>'')
   \<and> list_ex isMaximumRow [[''4'', ''Maximum''], [[], ''Maximum'']]
   \<and> last (filter isMaximumRow [[''4'', ''Maximum''], [[], ''Maximum'']]) ! 0 = []
   \<and> snd (tableToMarkdown
        \<lparr>thead = Some [''R'', ''Team''], tbodyRows = [[''4'', ''Maximum''], [[], ''Maximum'']]\<rparr>) =
      Some (RANKING_PAGE_URL @ ''\<newline>''
            @ ''```markdown\<newline>''
            @ fenced (tableLines [''R'', ''Team''] [[''4'', ''Maximum''], [[], ''Maximum'']])
            @ ''```\<newline>'')"
  using highlight_line [of "\<lparr>thead = Some [''R'', ''Team''], tbodyRows = [[''4'', ''Maximum''], [''7'', ''Maximum'']]\<rparr>"
      "[''R'', ''Team'']"]
    highlight_line [of "\<lparr>thead = Some [''R'', ''Team''], tbodyRows = [[''4'', ''Maximum''], [[], ''Maximum'']]\<rparr>"
      "[''R'', ''Team'']"]
  by (simp add: isMaximumRow_def isMaximum_def)

text \<open>
  C7, as stated, fails when the first cell of the tracked row is empty: the empty string
  is falsy, and the output starts with the URL line. And of two Maximum rows it is the
  last one, not the first, whose first cell the highlight line shows.
\<close>

theorem highlight_line_counterexample:
  "list_ex isMaximumRow (tbodyRows \<lparr>thead = Some [''Rank'', ''Team''], tbodyRows = [[[], ''Maximum'']]\<rparr>)
   \<and> snd (tableToMarkdown \<lparr>thead = Some [''Rank'', ''Team''], tbodyRows = [[[], ''Maximum'']]\<rparr>) =
     Some (''https://icfpcontest2025.github.io/aedificium.html\<newline>''
          @ ''```markdown\<newline>''
          @ ''| Rank | Team    |\<newline>''
          @ ''| ---- | ------- |\<newline>''
          @ ''|      | Maximum |\<newline>''
          @ ''```\<newline>'')
   \<and> cutoffIndex isMaximumRow [[''1'', ''Maximum''], [''2'', ''Maximum'']] = 0
   \<and> highlight (maximumRankOf [[''1'', ''Maximum''], [''2'', ''Maximum'']])
       = ''Maximum is **2th**\<newline>''"
  by code_simp

text \<open>
  C6. In the API worker an entry is treated as tracked exactly when its \<open>teamName\<close> is the
  literal \<open>Maximum\<close> (from index 10 on, that alone decides whether its row is printed);
  in the HTML worker a row is treated as tracked exactly when some \<open>td\<close> cell of it, in
  any column, has the text \<open>Maximum\<close>.
\<close>

theorem tracked_match:
  "(10 \<le> idx \<longrightarrow>
      (resultsLoop rank prevScore idx markdown [result] \<noteq> markdown
         \<longleftrightarrow> teamName result = ''Maximum''))
   \<and> (isMaximumRow row \<longleftrightarrow> (\<exists>k<length row. row ! k = ''Maximum''))"
  by (simp add: isMaximumRow_iff Let_def apiRow_not_Nil)

theorem tracked_match_witness:
  "(10::nat) \<le> 10
   \<and> resultsLoop 11 80 10 ''md'' [\<lparr>teamName = ''Maximum'', teamPl = ''x'', score = 80\<rparr>] \<noteq> ''md''
   \<and> resultsLoop 11 80 10 ''md'' [\<lparr>teamName = ''maximum'', teamPl = ''Maximum'', score = 80\<rparr>] = ''md''
   \<and> isMaximumRow [''12'', ''Maximum'', ''80'']
   \<and> \<not> isMaximumRow [''12'', ''MAXIMUM'', ''80'']"
  using tracked_match [of 10 11 80 "''md''" "\<lparr>teamName = ''Maximum'', teamPl = ''x'', score = 80\<rparr>"
      "[''12'', ''Maximum'', ''80'']"]
    tracked_match [of 10 11 80 "''md''" "\<lparr>teamName = ''maximum'', teamPl = ''Maximum'', score = 80\<rparr>"
      "[''12'', ''MAXIMUM'', ''80'']"]
  by (simp add: isMaximumRow_def isMaximum_def)

text \<open>
  C6, as stated, fails in the HTML worker: a row of team Alpha whose score cell, or whose
  rank cell, reads \<open>Maximum\<close> is a Maximum row, and it sets the highlight line.
\<close>

theorem tracked_match_counterexample:
  "isMaximumRow [''2'', ''Alpha'', ''Maximum'']
   \<and> isMaximumRow [''Maximum'', ''Alpha'', ''90'']
   \<and> highlight (maximumRankOf [[''2'', ''Alpha'', ''Maximum'']]) = ''Maximum is **2th**\<newline>''"
  by (simp add: isMaximumRow_def isMaximum_def maximumRankOf_def highlight_def)

section \<open>The time gate and the dispatch\<close>

lemma scheduled_html_run:
  assumes "isContestPeriod now1" and "is0Minute now2"
  shows "\<exists>rest. scheduled_html now1 now2 webhook page = FetchGet RANKING_PAGE_URL # rest"
  using assms by (simp add: scheduled_html_def split: option.splits prod.splits)

lemma scheduled_html_skip:
  assumes "\<not> (isContestPeriod now1 \<and> is0Minute now2)"
  shows "\<not> list_ex isFetch (scheduled_html now1 now2 webhook page)"
  using assms by (auto simp: scheduled_html_def isFetch_def)

lemma scheduled_api_run:
  assumes "isContestPeriod now"
  shows "\<exists>rest. effects (scheduled_api now webhook payload) = FetchGet RANKING_API_URL # rest"
  using assms by (simp add: scheduled_api_def split: option.splits sum.splits)

lemma scheduled_api_skip:
  assumes "\<not> isContestPeriod now"
  shows "scheduled_api now webhook payload =
           \<lparr>effects = [ConsoleLog ''not in contest period''], failure = None\<rparr>"
  using assms by (simp add: scheduled_api_def)

text \<open>
  C9. The worker fetches exactly when the time gate lets it: in the HTML worker when the
  (first) clock reading lies in the inclusive contest window and the (second) clock
  reading has minute-of-hour 0, in the API worker when the clock reading lies in the
  window. When the gate is closed no \<open>fetch\<close> is called at all; one minute before the
  window opens both workers only log that the contest is not running.
\<close>

theorem time_gate:
  "(list_ex isFetch (scheduled_html now1 now2 webhook page)
      \<longleftrightarrow> isContestPeriod now1 \<and> is0Minute now2)
   \<and> (list_ex isFetch (scheduled_html now now webhook page)
      \<longleftrightarrow> (CONTEST_START_AT \<le> now \<and> now \<le> CONTEST_END_AT) \<and> (now div 60000) mod 60 = 0)
   \<and> (list_ex isFetch (effects (scheduled_api now webhook payload))
      \<longleftrightarrow> CONTEST_START_AT \<le> now \<and> now \<le> CONTEST_END_AT)
   \<and> scheduled_html (CONTEST_START_AT - 60000) (CONTEST_START_AT - 60000) webhook page
        = [ConsoleLog ''not in contest period'']
   \<and> effects (scheduled_api (CONTEST_START_AT - 60000) webhook payload)
        = [ConsoleLog ''not in contest period'']"
proof -
  have html: "list_ex isFetch (scheduled_html t1 t2 webhook page)
      \<longleftrightarrow> isContestPeriod t1 \<and> is0Minute t2" for t1 t2
  proof (cases "isContestPeriod t1 \<and> is0Minute t2")
    case True
    with scheduled_html_run [of t1 t2 webhook page] show ?thesis
      by (auto simp: isFetch_def)
  next
    case False
    with scheduled_html_skip [of t1 t2 webhook page] show ?thesis by simp
  qed
  have api: "list_ex isFetch (effects (scheduled_api now webhook payload))
      \<longleftrightarrow> isContestPeriod now"
  proof (cases "isContestPeriod now")
    case True
    with scheduled_api_run [of now webhook payload] show ?thesis
      by (auto simp: isFetch_def)
  next
    case False
    with scheduled_api_skip [of now webhook payload] show ?thesis
      by (simp add: isFetch_def)
  qed
  have before: "\<not> isContestPeriod (CONTEST_START_AT - 60000)"
    by (simp add: isContestPeriod_def)
  from html [of now1 now2] html [of now now] api before show ?thesis
    by (simp add: scheduled_html_def scheduled_api_def isContestPeriod_def is0Minute_def)
qed

theorem time_gate_witness:
  "isContestPeriod CONTEST_START_AT \<and> is0Minute CONTEST_START_AT
   \<and> list_ex isFetch (scheduled_html CONTEST_START_AT CONTEST_START_AT ''hook'' None)
   \<and> scheduled_html CONTEST_START_AT CONTEST_START_AT ''hook'' None
        = [FetchGet RANKING_PAGE_URL, ConsoleError ''Table not found'']
   \<and> \<not> list_ex isFetch (scheduled_html (CONTEST_START_AT + 60000) (CONTEST_START_AT + 60000) ''hook'' None)
   \<and> list_ex isFetch (effects (scheduled_api (CONTEST_START_AT + 60000) ''hook'' None))"
proof -
  have a: "isContestPeriod (CONTEST_START_AT + 60000)"
    by (simp add: isContestPeriod_def CONTEST_START_AT_def CONTEST_END_AT_def)
  have b: "\<not> is0Minute (CONTEST_START_AT + 60000)"
    by (simp add: is0Minute_def CONTEST_START_AT_def)
  have c: "scheduled_html CONTEST_START_AT CONTEST_START_AT ''hook'' None
        = [FetchGet RANKING_PAGE_URL, ConsoleError ''Table not found'']"
    by (simp add: scheduled_html_def isContestPeriod_start is0Minute_start)
  from a b c isContestPeriod_start is0Minute_start
    time_gate [of CONTEST_START_AT CONTEST_START_AT "''hook''" None "CONTEST_START_AT + 60000" None]
    time_gate [of "CONTEST_START_AT + 60000" "CONTEST_START_AT + 60000" "''hook''" None "CONTEST_START_AT + 60000" None]
  show ?thesis by (simp add: isContestPeriod_def is0Minute_def)
qed

text \<open>
  C3. The HTML worker, run inside the window at minute 0 on a table without \<open>thead\<close>:
  \<open>tableToMarkdown\<close> logs the missing header and returns \<open>undefined\<close>, and \<open>scheduled\<close>
  still posts to the webhook, with no \<open>content\<close>. (The path for a page without a table
  returns before the dispatch.)
\<close>

theorem missing_header_still_posts:
  "scheduled_html CONTEST_START_AT CONTEST_START_AT webhook
     (Some \<lparr>thead = None, tbodyRows = rows\<rparr>)
   = [FetchGet RANKING_PAGE_URL, ConsoleError ''Header not found'', FetchPost webhook None]"
  by (simp add: scheduled_html_def isContestPeriod_start is0Minute_start tableToMarkdown_def)

text \<open>
  C4. On an empty array the API worker fails: reading \<open>results[0].score\<close> throws while
  the argument of the webhook call is computed, so the handler ends with that exception
  after the leaderboard fetch, and no POST is made.
\<close>

theorem empty_array_no_dispatch:
  "responseToMarkdown [] = Inl TypeError
   \<and> (isContestPeriod now \<longrightarrow>
        scheduled_api now webhook (Some []) =
          \<lparr>effects = [FetchGet RANKING_API_URL], failure = Some TypeError\<rparr>)
   \<and> \<not> list_ex isPost (effects (scheduled_api now webhook (Some [])))"
  by (simp add: responseToMarkdown_def scheduled_api_def isPost_def)

theorem empty_array_no_dispatch_witness:
  "isContestPeriod CONTEST_START_AT
   \<and> scheduled_api CONTEST_START_AT ''hook'' (Some []) =
       \<lparr>effects = [FetchGet RANKING_API_URL], failure = Some TypeError\<rparr>"
  using empty_array_no_dispatch [of CONTEST_START_AT "''hook''"] isContestPeriod_start
  by simp



section \<open>The rows that are rendered\<close>

lemma printed_True:
  "printed True index rows = filter (\<lambda>e. fst e \<le> 10) (enumerate index rows)"
  by (induction rows arbitrary: index) (auto simp: Let_def)

lemma filter_enumerate_cong:
  assumes "\<And>i. index \<le> i \<Longrightarrow> i < index + length rows \<Longrightarrow> P i = Q i"
  shows "filter (\<lambda>e. P (fst e)) (enumerate index rows) = filter (\<lambda>e. Q (fst e)) (enumerate index rows)"
  by (rule filter_cong [OF refl]) (use assms in \<open>auto simp: in_set_enumerate_eq\<close>)

lemma printed_False:
  "printed False index rows =
     filter (\<lambda>e. fst e \<le> 10 \<or> fst e < index + cutoffIndex isMaximumRow rows)
       (enumerate index rows)"
proof (induction rows arbitrary: index)
  case Nil
  then show ?case by simp
next
  case (Cons row rows)
  show ?case
  proof (cases "isMaximumRow row")
    case True
    have "filter (\<lambda>e. fst e \<le> 10) (enumerate (Suc index) rows) =
          filter (\<lambda>e. fst e \<le> 10 \<or> fst e < index) (enumerate (Suc index) rows)"
      by (rule filter_enumerate_cong) auto
    with True show ?thesis
      by (simp add: Let_def printed_True cutoffIndex_def)
  next
    case False
    with Cons.IH [of "Suc index"] show ?thesis
      by (simp add: Let_def cutoffIndex_def)
  qed
qed

lemma printed_rows:
  "printed False 0 rows =
     filter (\<lambda>e. fst e \<le> 10 \<or> fst e < cutoffIndex isMaximumRow rows) (enumerate 0 rows)"
  using printed_False [of 0 rows] by simp

lemma printed_member:
  "(i, row) \<in> set (printed False 0 rows) \<longleftrightarrow>
     i < length rows \<and> row = rows ! i \<and> (i \<le> 10 \<or> i < cutoffIndex isMaximumRow rows)"
  by (auto simp: printed_rows in_set_enumerate_eq)

text \<open>
  C1, as stated, fails in both workers. HTML worker: of thirteen rows with the Maximum
  row last, at index 12, rows 0 to 11 are rendered and the Maximum row is not. API
  worker: of eleven entries without the tracked one, only the first ten are rendered.
\<close>

theorem row_selection_counterexample:
  "cutoffIndex isMaximumRow (replicate 12 [''x''] @ [[''Maximum'']]) = 12
   \<and> rowPolicy 12 12
   \<and> map fst (printed False 0 (replicate 12 [''x''] @ [[''Maximum'']])) = [0, 1, 2, 3, 4, 5, 6, 7, 8, 9, 10, 11]
   \<and> snd (tableToMarkdown \<lparr>thead = Some [''T''], tbodyRows = replicate 12 [''x''] @ [[''Maximum'']]\<rparr>) =
       Some (''Maximum is **Maximumth**\<newline>''
             @ ''https://icfpcontest2025.github.io/aedificium.html\<newline>''
             @ ''```markdown\<newline>''
             @ ''| T       |\<newline>''
             @ ''| ------- |\<newline>''
             @ concat (replicate 12 ''| x       |\<newline>'')
             @ ''```\<newline>'')
   \<and> cutoffIndex isMaximumResult (replicate 11 otherTeam) = 11
   \<and> rowPolicy 11 10
   \<and> responseToMarkdown (replicate 11 otherTeam) =
       Inr (apiHead @ concat (replicate 10 (apiRow 1 otherTeam)) @ ''```\<newline>'')"
  by code_simp


text \<open>
  C1. Which rows are rendered. API worker: row \<open>i\<close> is rendered if and only if \<open>i < 10\<close>
  or entry \<open>i\<close> has the team name \<open>Maximum\<close>. HTML worker, with \<open>cutoffIndex\<close> the
  index of the first Maximum row (beyond every row when there is none): the rendered rows
  are rows of the table at their own indices, every row with \<open>i \<le> 10\<close> or
  \<open>i < cutoffIndex\<close> is rendered, and no row with \<open>i > 10\<close> and \<open>i > cutoffIndex\<close> is.
\<close>

theorem row_selection:
  "(results \<noteq> [] \<longrightarrow>
      responseToMarkdown results =
        Inr (apiHead
             @ concat (map (\<lambda>i. apiRow (ranks results ! i) (results ! i))
                         (filter (\<lambda>i. isMaximumResult (results ! i) \<or> i < 10)
                            [0..<length results]))
             @ ''```\<newline>''))
   \<and> (thead table = Some headerCells \<longrightarrow>
        snd (tableToMarkdown table) =
          Some (highlight (maximumRankOf (tbodyRows table))
                @ RANKING_PAGE_URL @ ''\<newline>''
                @ ''```markdown\<newline>''
                @ fenced (cellsLine (widths headerCells (tbodyRows table)) headerCells
                          # separatorLine (widths headerCells (tbodyRows table)) headerCells
                          # map (\<lambda>e. cellsLine (widths headerCells (tbodyRows table)) (snd e))
                              (printed False 0 (tbodyRows table)))
                @ ''```\<newline>''))
   \<and> (\<forall>i row. (i, row) \<in> set (printed False 0 rows) \<longrightarrow> i < length rows \<and> row = rows ! i)
   \<and> (\<forall>i<length rows. i \<le> 10 \<or> i < cutoffIndex isMaximumRow rows \<longrightarrow>
          (i, rows ! i) \<in> set (printed False 0 rows))
   \<and> (\<forall>i<length rows. 10 < i \<and> cutoffIndex isMaximumRow rows < i \<longrightarrow>
          (i, rows ! i) \<notin> set (printed False 0 rows))"
proof -
  have a: "results \<noteq> [] \<longrightarrow>
      responseToMarkdown results =
        Inr (apiHead
             @ concat (map (\<lambda>i. apiRow (ranks results ! i) (results ! i))
                         (filter (\<lambda>i. isMaximumResult (results ! i) \<or> i < 10)
                            [0..<length results]))
             @ ''```\<newline>'')"
    using responseToMarkdown_rows [of results] by (simp add: isMaximumResult_def)
  have b: "thead table = Some headerCells \<longrightarrow>
        snd (tableToMarkdown table) =
          Some (highlight (maximumRankOf (tbodyRows table))
                @ RANKING_PAGE_URL @ ''\<newline>''
                @ ''```markdown\<newline>''
                @ fenced (cellsLine (widths headerCells (tbodyRows table)) headerCells
                          # separatorLine (widths headerCells (tbodyRows table)) headerCells
                          # map (\<lambda>e. cellsLine (widths headerCells (tbodyRows table)) (snd e))
                              (printed False 0 (tbodyRows table)))
                @ ''```\<newline>'')"
    using tableToMarkdown_shape [of table headerCells] by (simp add: tableLines_def)
  have c: "\<forall>i row. (i, row) \<in> set (printed False 0 rows) \<longrightarrow> i < length rows \<and> row = rows ! i"
    by (simp add: printed_member)
  have d: "\<forall>i<length rows. i \<le> 10 \<or> i < cutoffIndex isMaximumRow rows \<longrightarrow>
          (i, rows ! i) \<in> set (printed False 0 rows)"
    by (simp add: printed_member)
  have e: "\<forall>i<length rows. 10 < i \<and> cutoffIndex isMaximumRow rows < i \<longrightarrow>
          (i, rows ! i) \<notin> set (printed False 0 rows)"
    by (simp add: printed_member)
  show ?thesis
    by (rule conjI [OF a conjI [OF b conjI [OF c conjI [OF d e]]]])
qed

theorem row_selection_witness:
  "scenarioA \<noteq> []
   \<and> responseToMarkdown scenarioA =
        Inr (apiHead @ apiRow 1 (scenarioA ! 0) @ apiRow 2 (scenarioA ! 1)
             @ apiRow 2 (scenarioA ! 2) @ apiRow 3 (scenarioA ! 3) @ ''```\<newline>'')
   \<and> thead scenarioATable = Some [''Rank'', ''Team'', ''Score'']
   \<and> cutoffIndex isMaximumRow (tbodyRows scenarioATable) = 1
   \<and> (2, [''2'', ''Beta'', ''90'']) \<in> set (printed False 0 (tbodyRows scenarioATable))
   \<and> cutoffIndex isMaximumRow (replicate 3 [''x''] @ [[''Maximum'']] @ replicate 9 [''x'']) = 3
   \<and> (12, [''x'']) \<notin> set (printed False 0 (replicate 3 [''x''] @ [[''Maximum'']] @ replicate 9 [''x'']))"
proof -
  have ne: "scenarioA \<noteq> []" by (simp add: scenarioA_def)
  have rk: "ranks scenarioA = [1, 2, 2, 3]" by (simp add: ranks_def scenarioA_def)
  have len: "length scenarioA = 4" by (simp add: scenarioA_def)
  have up: "[0..<4] = [0, 1, 2, 3]" by (simp add: upt_rec)
  have th: "thead scenarioATable = Some [''Rank'', ''Team'', ''Score'']"
    by (simp add: scenarioATable_def)
  have c1: "cutoffIndex isMaximumRow (tbodyRows scenarioATable) = 1"
    by (simp add: scenarioATable_def cutoffIndex_def isMaximumRow_def isMaximum_def)
  have l2: "length (tbodyRows scenarioATable) = 4" "tbodyRows scenarioATable ! 2 = [''2'', ''Beta'', ''90'']"
    by (simp_all add: scenarioATable_def)
  let ?rows = "replicate 3 [''x''] @ [[''Maximum'']] @ replicate 9 [''x'']"
  have c2: "cutoffIndex isMaximumRow ?rows = 3"
    by code_simp
  have l3: "length ?rows = 13" "?rows ! 12 = [''x'']"
    by (simp_all add: nth_append)
  note sel = row_selection [of scenarioA scenarioATable "[''Rank'', ''Team'', ''Score'']"
      "tbodyRows scenarioATable"]
  from sel ne have "responseToMarkdown scenarioA =
        Inr (apiHead
             @ concat (map (\<lambda>i. apiRow (ranks scenarioA ! i) (scenarioA ! i))
                         (filter (\<lambda>i. isMaximumResult (scenarioA ! i) \<or> i < 10)
                            [0..<length scenarioA]))
             @ ''```\<newline>'')"
    by blast
  then have a: "responseToMarkdown scenarioA =
        Inr (apiHead @ apiRow 1 (scenarioA ! 0) @ apiRow 2 (scenarioA ! 1)
             @ apiRow 2 (scenarioA ! 2) @ apiRow 3 (scenarioA ! 3) @ ''```\<newline>'')"
    by (simp add: rk len up)
  from sel have "\<forall>i<length (tbodyRows scenarioATable).
      i \<le> 10 \<or> i < cutoffIndex isMaximumRow (tbodyRows scenarioATable) \<longrightarrow>
        (i, tbodyRows scenarioATable ! i) \<in> set (printed False 0 (tbodyRows scenarioATable))"
    by blast
  from this [rule_format, of 2] l2
  have b: "(2, [''2'', ''Beta'', ''90'']) \<in> set (printed False 0 (tbodyRows scenarioATable))"
    by simp
  from row_selection [of scenarioA scenarioATable "[''Rank'', ''Team'', ''Score'']" ?rows]
  have "\<forall>i<length ?rows. 10 < i \<and> cutoffIndex isMaximumRow ?rows < i \<longrightarrow>
          (i, ?rows ! i) \<notin> set (printed False 0 ?rows)"
    by blast
  from this [rule_format, of 12] c2 l3
  have c: "(12, [''x'']) \<notin> set (printed False 0 ?rows)"
    by simp
  from ne a th c1 b c2 c show ?thesis by blast
qed



section \<open>Column widths and line lengths\<close>

lemma length_padEnd: "length (padEnd s n) = max (length s) n"
  by (simp add: padEnd_def)

lemma length_repeat_dash: "length (repeat ''-'' n) = n"
  by (induction n) (simp_all add: repeat_def)

lemma length_join:
  "length (join sep xs) = sum_list (map length xs) + length sep * (length xs - 1)"
  by (induction sep xs rule: join.induct) simp_all

lemma at_Num: "k < length ns \<Longrightarrow> at (map Num ns) k = Some (Num (ns ! k))"
  by (simp add: at_def)

lemma cellsLoop_prefix:
  assumes "length cells = length ns"
  shows "cellsLoop (map Num (pre @ ns)) (length pre) cells =
           map Num (pre @ map2 max ns (map length cells))"
  using assms
proof (induction cells ns arbitrary: pre rule: list_induct2)
  case Nil
  then show ?case by simp
next
  case (Cons cell cells n ns)
  have "setAt (map Num (pre @ n # ns)) (length pre)
          (mathMax (at (map Num (pre @ n # ns)) (length pre)) (length cell))
        = map Num ((pre @ [max n (length cell)]) @ ns)"
    by (simp add: setAt_def at_def nth_append list_update_append)
  with Cons.IH [of "pre @ [max n (length cell)]"] show ?case by simp
qed

lemma cellsLoop_row:
  assumes "length cells = length ns"
  shows "cellsLoop (map Num ns) 0 cells = map Num (map2 max ns (map length cells))"
  using cellsLoop_prefix [OF assms, of "[]"] by simp


lemma scanRows_fold:
  assumes "\<forall>row\<in>set rows. length row = length ns"
  shows "snd (scanRows maximumRank (map Num ns) rows) =
           map Num (map (\<lambda>k. fold max (map (\<lambda>row. length (row ! k)) rows) (ns ! k))
                      [0..<length ns])"
  using assms
proof (induction rows arbitrary: ns maximumRank)
  case Nil
  then show ?case by (simp add: map_nth)
next
  case (Cons row rows)
  let ?ns = "map2 max ns (map length row)"
  from Cons.prems have len: "length row = length ns"
    and rest: "\<forall>r\<in>set rows. length r = length ?ns"
    by simp_all
  have step: "cellsLoop (map Num ns) 0 row = map Num ?ns"
    by (rule cellsLoop_row [OF len])
  have "snd (scanRows maximumRank (map Num ns) (row # rows)) =
        map Num (map (\<lambda>k. fold max (map (\<lambda>row. length (row ! k)) rows) (?ns ! k))
                   [0..<length ?ns])"
    using Cons.IH [OF rest] by (simp only: scanRows.simps step)
  also have "\<dots> = map Num (map (\<lambda>k. fold max (map (\<lambda>row. length (row ! k)) (row # rows)) (ns ! k))
                   [0..<length ns])"
    using len by (simp add: max.commute)
  finally show ?case .
qed

lemma columnMax_fold:
  "columnMax headerCells rows k =
     fold max (map (\<lambda>row. length (row ! k)) rows) (length (headerCells ! k))"
proof -
  have "columnMax headerCells rows k =
          Max (set (length (headerCells ! k) # map (\<lambda>row. length (row ! k)) rows))"
    by (simp add: columnMax_def o_def)
  then show ?thesis by (simp only: Max.set_eq_fold)
qed

lemma widths_columnMax:
  assumes "\<forall>row\<in>set rows. length row = length headerCells"
  shows "widths headerCells rows =
           map (\<lambda>k. Num (columnMax headerCells rows k)) [0..<length headerCells]"
proof -
  have "widths headerCells rows =
          snd (scanRows None (map Num (map length headerCells)) rows)"
    by (simp add: widths_def o_def)
  also have "\<dots> = map Num (map (\<lambda>k. fold max (map (\<lambda>row. length (row ! k)) rows)
                                       (map length headerCells ! k))
                             [0..<length (map length headerCells)])"
    by (rule scanRows_fold) (use assms in simp)
  also have "\<dots> = map (\<lambda>k. Num (columnMax headerCells rows k)) [0..<length headerCells]"
    by (simp add: columnMax_fold)
  finally show ?thesis .
qed

lemma columnMax_header: "length (headerCells ! k) \<le> columnMax headerCells rows k"
  by (simp add: columnMax_def)

lemma columnMax_cell:
  "row \<in> set rows \<Longrightarrow> length (row ! k) \<le> columnMax headerCells rows k"
  by (simp add: columnMax_def)


lemma padded_lengths:
  assumes "length cells = length ns" and "\<forall>k<length ns. length (cells ! k) \<le> ns ! k"
  shows "map length (map (\<lambda>(index, text). padEnd text (toLength (at (map Num ns) index)))
                        (enumerate 0 cells)) = ns"
proof (rule nth_equalityI)
  show "length (map length (map (\<lambda>(index, text). padEnd text (toLength (at (map Num ns) index)))
                        (enumerate 0 cells))) = length ns"
    using assms(1) by simp
next
  fix k
  assume "k < length (map length (map (\<lambda>(index, text). padEnd text (toLength (at (map Num ns) index)))
                        (enumerate 0 cells)))"
  then have k: "k < length ns" "k < length cells" using assms(1) by simp_all
  with assms(2) have "length (cells ! k) \<le> ns ! k" by simp
  with k show "map length (map (\<lambda>(index, text). padEnd text (toLength (at (map Num ns) index)))
                        (enumerate 0 cells)) ! k = ns ! k"
    by (simp add: nth_enumerate_eq at_Num length_padEnd)
qed

lemma dashes_lengths:
  assumes "length cells = length ns"
  shows "map length (map (\<lambda>(index, text). repeat ''-'' (toLength (at (map Num ns) index)))
                        (enumerate 0 cells)) = ns"
proof (rule nth_equalityI)
  show "length (map length (map (\<lambda>(index, text). repeat ''-'' (toLength (at (map Num ns) index)))
                        (enumerate 0 cells))) = length ns"
    using assms by simp
next
  fix k
  assume "k < length (map length (map (\<lambda>(index, text). repeat ''-'' (toLength (at (map Num ns) index)))
                        (enumerate 0 cells)))"
  then have k: "k < length ns" "k < length cells" using assms by simp_all
  then show "map length (map (\<lambda>(index, text). repeat ''-'' (toLength (at (map Num ns) index)))
                        (enumerate 0 cells)) ! k = ns ! k"
    by (simp add: nth_enumerate_eq at_Num length_repeat_dash)
qed

lemma length_cellsLine:
  assumes "length cells = length ns" and "\<forall>k<length ns. length (cells ! k) \<le> ns ! k"
  shows "length (cellsLine (map Num ns) cells) = 4 + sum_list ns + 3 * (length ns - 1)"
proof -
  let ?xs = "map (\<lambda>(index, text). padEnd text (toLength (at (map Num ns) index)))
               (enumerate 0 cells)"
  have e1: "map length ?xs = ns" by (rule padded_lengths [OF assms])
  have e2: "length ?xs = length ns" using assms(1) by simp
  have "length (cellsLine (map Num ns) cells) =
          4 + (sum_list (map length ?xs) + 3 * (length ?xs - 1))"
    by (simp add: cellsLine_def length_join del: map_map)
  then show ?thesis unfolding e1 e2 by simp
qed

lemma length_separatorLine:
  assumes "length cells = length ns"
  shows "length (separatorLine (map Num ns) cells) = 4 + sum_list ns + 3 * (length ns - 1)"
proof -
  let ?xs = "map (\<lambda>(index, text). repeat ''-'' (toLength (at (map Num ns) index)))
               (enumerate 0 cells)"
  have e1: "map length ?xs = ns" by (rule dashes_lengths [OF assms])
  have e2: "length ?xs = length ns" using assms by simp
  have "length (separatorLine (map Num ns) cells) =
          4 + (sum_list (map length ?xs) + 3 * (length ?xs - 1))"
    by (simp add: separatorLine_def length_join del: map_map)
  then show ?thesis unfolding e1 e2 by simp
qed

lemma printed_row_in_rows:
  "e \<in> set (printed False 0 rows) \<Longrightarrow> snd e \<in> set rows"
  by (cases e) (simp add: printed_member)

lemma tableLines_lengths:
  assumes "\<forall>row\<in>set rows. length row = length headerCells"
    and "l \<in> set (tableLines headerCells rows)"
  shows "length l = 4 + sum_list (map (columnMax headerCells rows) [0..<length headerCells])
                      + 3 * (length headerCells - 1)"
proof -
  let ?ns = "map (columnMax headerCells rows) [0..<length headerCells]"
  have ws: "widths headerCells rows = map Num ?ns"
    by (simp add: widths_columnMax [OF assms(1)] o_def)
  have h: "length (cellsLine (map Num ?ns) headerCells) = 4 + sum_list ?ns + 3 * (length ?ns - 1)"
    by (rule length_cellsLine) (simp_all add: columnMax_header)
  have s: "length (separatorLine (map Num ?ns) headerCells) = 4 + sum_list ?ns + 3 * (length ?ns - 1)"
    by (rule length_separatorLine) simp
  have r: "length (cellsLine (map Num ?ns) row) = 4 + sum_list ?ns + 3 * (length ?ns - 1)"
    if "row \<in> set rows" for row
    by (rule length_cellsLine) (use that assms(1) in \<open>simp_all add: columnMax_cell\<close>)
  from assms(2) consider "l = cellsLine (map Num ?ns) headerCells"
    | "l = separatorLine (map Num ?ns) headerCells"
    | e where "e \<in> set (printed False 0 rows)" "l = cellsLine (map Num ?ns) (snd e)"
    unfolding tableLines_def ws by auto
  then show ?thesis
  proof cases
    case 1 with h show ?thesis by simp
  next
    case 2 with s show ?thesis by simp
  next
    case 3 with r [OF printed_row_in_rows [OF 3(1)]] show ?thesis by simp
  qed
qed

lemma printed_width:
  assumes "\<forall>row\<in>set rows. length row = length headerCells"
    and "row \<in> set (headerCells # rows)" and "k < length headerCells"
  shows "padEnd (row ! k) (toLength (at (widths headerCells rows) k)) =
           row ! k @ replicate (columnMax headerCells rows k - length (row ! k)) (CHR '' '')
         \<and> length (padEnd (row ! k) (toLength (at (widths headerCells rows) k))) =
             columnMax headerCells rows k"
proof -
  have w: "toLength (at (widths headerCells rows) k) = columnMax headerCells rows k"
    using assms(3) by (simp add: widths_columnMax [OF assms(1)] at_def)
  have "length (row ! k) \<le> columnMax headerCells rows k"
    using assms(2) columnMax_header [of headerCells k rows] columnMax_cell [of row rows k headerCells]
    by auto
  then show ?thesis by (simp add: w padEnd_def)
qed


lemma splitLines_line:
  "CHR ''\<newline>'' \<notin> set l \<Longrightarrow>
   splitLines (l @ CHR ''\<newline>'' # rest) = l # splitLines rest"
  by (induction l) auto

lemma in_set_join:
  "c \<in> set (join sep xs) \<Longrightarrow> c \<in> set sep \<or> (\<exists>x\<in>set xs. c \<in> set x)"
  by (induction sep xs rule: join.induct) auto

lemma splitLines_fenced:
  "\<forall>l\<in>set ls. CHR ''\<newline>'' \<notin> set l \<Longrightarrow> splitLines (fenced ls) = ls @ [[]]"
proof (induction ls)
  case Nil
  then show ?case by (simp add: fenced_def)
next
  case (Cons l ls)
  then have "CHR ''\<newline>'' \<notin> set l" and IH: "splitLines (fenced ls) = ls @ [[]]"
    by simp_all
  from splitLines_line [OF this(1), of "fenced ls"] IH show ?case
    by (simp add: fenced_def)
qed

lemma set_padEnd: "set (padEnd text n) \<subseteq> set text \<union> {CHR '' ''}"
  by (auto simp: padEnd_def)

lemma set_repeat_dash: "set (repeat ''-'' n) \<subseteq> {CHR ''-''}"
  by (induction n) (auto simp: repeat_def)

lemma newline_cellsLine:
  assumes "\<forall>cell\<in>set cells. CHR ''\<newline>'' \<notin> set cell"
  shows "CHR ''\<newline>'' \<notin> set (cellsLine ws cells)"
proof
  let ?xs = "map (\<lambda>(index, text). padEnd text (toLength (at ws index))) (enumerate 0 cells)"
  assume "CHR ''\<newline>'' \<in> set (cellsLine ws cells)"
  then have "CHR ''\<newline>'' \<in> set (join '' | '' ?xs)"
    by (simp add: cellsLine_def)
  from in_set_join [OF this] obtain x where "x \<in> set ?xs" and x: "CHR ''\<newline>'' \<in> set x"
    by auto
  then obtain e where "e \<in> set (enumerate 0 cells)"
    and "x = (\<lambda>(index, text). padEnd text (toLength (at ws index))) e"
    by auto
  with x obtain index cell where "(index, cell) \<in> set (enumerate 0 cells)"
    and "CHR ''\<newline>'' \<in> set (padEnd cell (toLength (at ws index)))"
    by (cases e) auto
  with set_padEnd [of cell "toLength (at ws index)"]
  have "cell \<in> set cells" and "CHR ''\<newline>'' \<in> set cell"
    by (auto simp: in_set_enumerate_eq)
  with assms show False by simp
qed

lemma newline_separatorLine: "CHR ''\<newline>'' \<notin> set (separatorLine ws cells)"
proof
  let ?xs = "map (\<lambda>(index, text). repeat ''-'' (toLength (at ws index))) (enumerate 0 cells)"
  assume "CHR ''\<newline>'' \<in> set (separatorLine ws cells)"
  then have "CHR ''\<newline>'' \<in> set (join '' | '' ?xs)"
    by (simp add: separatorLine_def)
  from in_set_join [OF this] obtain x where "x \<in> set ?xs" and x: "CHR ''\<newline>'' \<in> set x"
    by auto
  then obtain e where "x = (\<lambda>(index, text). repeat ''-'' (toLength (at ws index))) e"
    by auto
  with x obtain index where "CHR ''\<newline>'' \<in> set (repeat ''-'' (toLength (at ws index)))"
    by (cases e) auto
  with set_repeat_dash [of "toLength (at ws index)"] show False by auto
qed

lemma newline_tableLines:
  assumes "\<forall>row\<in>set (headerCells # rows). \<forall>cell\<in>set row. CHR ''\<newline>'' \<notin> set cell"
    and "l \<in> set (tableLines headerCells rows)"
  shows "CHR ''\<newline>'' \<notin> set l"
proof -
  let ?ws = "widths headerCells rows"
  from assms(2) consider "l = cellsLine ?ws headerCells" | "l = separatorLine ?ws headerCells"
    | e where "e \<in> set (printed False 0 rows)" "l = cellsLine ?ws (snd e)"
    unfolding tableLines_def by auto
  then show ?thesis
  proof cases
    case 1 with assms(1) show ?thesis by (simp add: newline_cellsLine)
  next
    case 2 then show ?thesis by (simp add: newline_separatorLine)
  next
    case 3
    from printed_row_in_rows [OF 3(1)] assms(1)
    have "\<forall>cell\<in>set (snd e). CHR ''\<newline>'' \<notin> set cell" by simp
    with 3(2) show ?thesis by (simp add: newline_cellsLine)
  qed
qed

text \<open>
  C8. For a table with a header whose body rows each have one cell per header column:
  the width of every column is the longest text among the header label and all body
  cells of that column, over all rows, printed or not; every printed cell is its whole
  text followed by spaces up to that width; every line written between the fence markers
  (header, separator, printed rows) has the same length; and, when no cell text contains
  a line break, these are exactly the lines of the text between the fence markers.
\<close>

theorem column_widths:
  assumes "thead table = Some headerCells"
    and "\<forall>row\<in>set (tbodyRows table). length row = length headerCells"
  shows "widths headerCells (tbodyRows table) =
           map (\<lambda>k. Num (columnMax headerCells (tbodyRows table) k)) [0..<length headerCells]
       \<and> (\<forall>row\<in>set (headerCells # tbodyRows table). \<forall>k<length headerCells.
             padEnd (row ! k) (toLength (at (widths headerCells (tbodyRows table)) k)) =
               row ! k @ replicate (columnMax headerCells (tbodyRows table) k - length (row ! k))
                           (CHR '' '')
             \<and> length (padEnd (row ! k) (toLength (at (widths headerCells (tbodyRows table)) k)))
                 = columnMax headerCells (tbodyRows table) k)
       \<and> snd (tableToMarkdown table) =
           Some (highlight (maximumRankOf (tbodyRows table))
                 @ RANKING_PAGE_URL @ ''\<newline>''
                 @ ''```markdown\<newline>''
                 @ fenced (tableLines headerCells (tbodyRows table))
                 @ ''```\<newline>'')
       \<and> (\<forall>l\<in>set (tableLines headerCells (tbodyRows table)).
             length l = 4 + sum_list (map (columnMax headerCells (tbodyRows table))
                                        [0..<length headerCells])
                          + 3 * (length headerCells - 1))
       \<and> ((\<forall>row\<in>set (headerCells # tbodyRows table). \<forall>cell\<in>set row.
                CHR ''\<newline>'' \<notin> set cell) \<longrightarrow>
            splitLines (fenced (tableLines headerCells (tbodyRows table))) =
              tableLines headerCells (tbodyRows table) @ [[]])"
proof -
  note a = widths_columnMax [OF assms(2)]
  have b: "\<forall>row\<in>set (headerCells # tbodyRows table). \<forall>k<length headerCells.
             padEnd (row ! k) (toLength (at (widths headerCells (tbodyRows table)) k)) =
               row ! k @ replicate (columnMax headerCells (tbodyRows table) k - length (row ! k))
                           (CHR '' '')
             \<and> length (padEnd (row ! k) (toLength (at (widths headerCells (tbodyRows table)) k)))
                 = columnMax headerCells (tbodyRows table) k"
    using printed_width [OF assms(2)] by blast
  have c: "snd (tableToMarkdown table) =
           Some (highlight (maximumRankOf (tbodyRows table))
                 @ RANKING_PAGE_URL @ ''\<newline>''
                 @ ''```markdown\<newline>''
                 @ fenced (tableLines headerCells (tbodyRows table))
                 @ ''```\<newline>'')"
    by (simp add: tableToMarkdown_shape [OF assms(1)])
  have d: "\<forall>l\<in>set (tableLines headerCells (tbodyRows table)).
             length l = 4 + sum_list (map (columnMax headerCells (tbodyRows table))
                                        [0..<length headerCells])
                          + 3 * (length headerCells - 1)"
    using tableLines_lengths [OF assms(2)] by blast
  have e: "(\<forall>row\<in>set (headerCells # tbodyRows table). \<forall>cell\<in>set row.
                CHR ''\<newline>'' \<notin> set cell) \<longrightarrow>
            splitLines (fenced (tableLines headerCells (tbodyRows table))) =
              tableLines headerCells (tbodyRows table) @ [[]]"
  proof
    assume n: "\<forall>row\<in>set (headerCells # tbodyRows table). \<forall>cell\<in>set row.
                CHR ''\<newline>'' \<notin> set cell"
    show "splitLines (fenced (tableLines headerCells (tbodyRows table))) =
              tableLines headerCells (tbodyRows table) @ [[]]"
      by (rule splitLines_fenced) (use newline_tableLines [OF n] in blast)
  qed
  show ?thesis
    by (rule conjI [OF a conjI [OF b conjI [OF c conjI [OF d e]]]])
qed

text \<open>
  C8, as stated, fails for a cell text with a line break: the row is written with the
  break inside, and the lines between the fence markers have lengths 7, 7, 3 and 3.
\<close>

theorem column_widths_counterexample:
  "snd (tableToMarkdown \<lparr>thead = Some [''A''], tbodyRows = [[''x\<newline>y'']]\<rparr>) =
     Some (''https://icfpcontest2025.github.io/aedificium.html\<newline>''
           @ ''```markdown\<newline>''
           @ ''| A   |\<newline>''
           @ ''| --- |\<newline>''
           @ ''| x\<newline>y |\<newline>''
           @ ''```\<newline>'')
   \<and> splitLines (''| A   |\<newline>'' @ ''| --- |\<newline>'' @ ''| x\<newline>y |\<newline>'')
       = [''| A   |'', ''| --- |'', ''| x'', ''y |'', []]
   \<and> length ''| A   |'' = 7 \<and> length ''| x'' = 3"
  by code_simp


theorem column_widths_witness:
  "thead scenarioATable = Some [''Rank'', ''Team'', ''Score'']
   \<and> list_all (\<lambda>row. length row = length [''Rank'', ''Team'', ''Score'']) (tbodyRows scenarioATable)
   \<and> widths [''Rank'', ''Team'', ''Score''] (tbodyRows scenarioATable) = [Num 4, Num 7, Num 5]
   \<and> map length (tableLines [''Rank'', ''Team'', ''Score''] (tbodyRows scenarioATable))
       = [26, 26, 26, 26, 26, 26]
   \<and> splitLines (fenced (tableLines [''Rank'', ''Team'', ''Score''] (tbodyRows scenarioATable)))
       = [''| Rank | Team    | Score |'',
          ''| ---- | ------- | ----- |'',
          ''| 1    | Alpha   | 100   |'',
          ''| 2    | Maximum | 90    |'',
          ''| 2    | Beta    | 90    |'',
          ''| 3    | Gamma   | 80    |'',
          []]"
proof -
  let ?hs = "[''Rank'', ''Team'', ''Score'']"
  let ?rows = "tbodyRows scenarioATable"
  have h1: "thead scenarioATable = Some ?hs" by (simp add: scenarioATable_def)
  have h2: "\<forall>row\<in>set ?rows. length row = length ?hs" by (simp add: scenarioATable_def)
  have h2': "list_all (\<lambda>row. length row = length ?hs) ?rows" by (simp add: scenarioATable_def)
  have nn: "\<forall>row\<in>set (?hs # ?rows). \<forall>cell\<in>set row. CHR ''\<newline>'' \<notin> set cell"
    by (simp add: scenarioATable_def)
  have cm: "map (columnMax ?hs ?rows) [0..<length ?hs] = [4, 7, 5]"
    by code_simp
  have tl: "tableLines ?hs ?rows =
         [''| Rank | Team    | Score |'',
          ''| ---- | ------- | ----- |'',
          ''| 1    | Alpha   | 100   |'',
          ''| 2    | Maximum | 90    |'',
          ''| 2    | Beta    | 90    |'',
          ''| 3    | Gamma   | 80    |'']"
    by code_simp
  note cw = column_widths [OF h1 h2]
  from cw have "widths ?hs ?rows = map (\<lambda>k. Num (columnMax ?hs ?rows k)) [0..<length ?hs]"
    by blast
  also have "\<dots> = map Num (map (columnMax ?hs ?rows) [0..<length ?hs])"
    by (simp only: map_map o_def)
  finally have w: "widths ?hs ?rows = [Num 4, Num 7, Num 5]"
    by (simp only: cm list.map)
  from cw nn have "splitLines (fenced (tableLines ?hs ?rows)) = tableLines ?hs ?rows @ [[]]"
    by blast
  then have sp: "splitLines (fenced (tableLines ?hs ?rows)) =
         [''| Rank | Team    | Score |'',
          ''| ---- | ------- | ----- |'',
          ''| 1    | Alpha   | 100   |'',
          ''| 2    | Maximum | 90    |'',
          ''| 2    | Beta    | 90    |'',
          ''| 3    | Gamma   | 80    |'',
          []]"
    by (simp only: tl append.simps)
  have ln: "map length (tableLines ?hs ?rows) = [26, 26, 26, 26, 26, 26]"
    by (simp add: tl)
  from h1 h2' w ln sp show ?thesis by (intro conjI)
qed


end
